theory Spec2Isabelle
  imports Main
begin

section \<open>The tab bar of phosphor-tabs (src/tabbar.ts)\<close>

text \<open>
  The theory embeds the class \<open>TabBar\<close> of \<open>src/tabbar.ts\<close>: its title collection, the
  \<open>currentTitle\<close> property, the drag data and the DOM event handlers. The object is a
  record that every method takes and returns. What the class touches outside itself is
  part of that record as well: the titles whose \<open>changed\<close> signal is connected to the
  bar, the signals the bar has emitted (a log, oldest first), the pending update request
  of the widget base class, the capture listeners on the document, the tab nodes below
  the content node, and the cursor override.
\<close>

subsection \<open>Numbers\<close>

text \<open>
  Indices are JavaScript numbers; the model covers the integer-valued ones. The source
  writes \<open>index | 0\<close>, the conversion to a signed 32-bit integer, which wraps.
\<close>

definition toInt32 :: "int \<Rightarrow> int" where
  "toInt32 x = (x + 2147483648) mod 4294967296 - 2147483648"

subsection \<open>Titles, DOM nodes and events\<close>

text \<open>
  A \<open>Title\<close> is an object of phosphor-widget, compared by identity (\<open>===\<close>,
  \<open>indexOf\<close>): the model keeps its identity only. Its \<open>closable\<close> attribute lives in
  the heap and is passed to the click handler as a function of the title.
\<close>

datatype title = Title nat

record ClientRect =
  rect_left :: int
  rect_top :: int
  rect_right :: int
  rect_bottom :: int

text \<open>
  A tab node (an \<open>li\<close> child of the content node): its identity, its bounding client
  rectangle, its \<open>offsetLeft\<close>, the identities of the nodes that its close icon
  (\<open>lastChild\<close>) contains, the icon itself among them, the inline style \<open>left\<close>
  (\<open>None\<close> for the empty string) and whether it carries the class \<open>p-mod-dragging\<close>.
\<close>

record tab_node =
  node_id :: nat
  bounds :: ClientRect
  offsetLeft :: int
  closeIcon :: "nat list"
  style_left :: "int option"
  tab_dragging :: bool

datatype event_type = Click | MouseDown | MouseMove | MouseUp | KeyDown

record dom_event =
  etype :: event_type
  button :: int
  clientX :: int
  clientY :: int
  target :: nat
  defaultPrevented :: bool
  propagationStopped :: bool

text \<open>
  The class \<open>DragData\<close>. The fields \<open>tabLayout\<close>, \<open>contentRect\<close> and \<open>cursorGrab\<close> are
  \<open>null\<close> when the object is built and the source never assigns them; they are left
  out, and disposing \<open>cursorGrab\<close> is the clearing of the cursor override below. The
  pressed title is \<open>_titles[i]\<close>, which is \<open>undefined\<close> (\<open>None\<close>) when the tab nodes
  outnumber the titles.
\<close>

record DragData =
  drag_title :: "title option"
  drag_tab :: nat
  tabIndex :: int
  tabLeft :: int
  tabWidth :: int
  tabPressX :: int
  tabTargetIndex :: int
  pressX :: int
  pressY :: int
  dragActive :: bool
  detachRequested :: bool

text \<open>The two signals of the class, with their arguments (old and new value; the title).\<close>

datatype signal =
  CurrentChanged "title option" "title option"
| TabCloseRequested title

record tabbar =
  titles :: "title list"
  currentTitle :: "title option"
  dirty :: bool
  tabsMovable :: bool
  dragData :: "DragData option"
  connected :: "title set"
  signals :: "signal list"
  updateRequested :: bool
  docListeners :: bool
  tabs :: "tab_node list"
  barDragging :: bool
  cursorOverride :: bool

text \<open>A handler either returns or throws; a throw keeps the state reached so far.\<close>

datatype error = TypeError

datatype 'a outcome = Done 'a | Threw error 'a

fun state_of :: "'a outcome \<Rightarrow> 'a" where
  "state_of (Done s) = s"
| "state_of (Threw e s) = s"

text \<open>The tab bar after its constructor: the field initialisers of the class.\<close>

definition newTabBar :: tabbar where
  "newTabBar = \<lparr> titles = [], currentTitle = None, dirty = False, tabsMovable = False,
     dragData = None, connected = {}, signals = [], updateRequested = False,
     docListeners = False, tabs = [], barDragging = False, cursorOverride = False \<rparr>"

subsection \<open>The libraries the class calls\<close>

text \<open>
  \<open>phosphor-arrays\<close>, on indices that are integers already: \<open>insert\<close> clamps the index
  into \<open>[0, length]\<close>; \<open>move\<close> and \<open>removeAt\<close> do nothing on an index out of range,
  \<open>removeAt\<close> returning \<open>undefined\<close>.
\<close>

definition arrays_insert :: "'a list \<Rightarrow> int \<Rightarrow> 'a \<Rightarrow> 'a list" where
  "arrays_insert xs index v =
     (let j = nat (max 0 (min index (int (length xs))))
      in take j xs @ [v] @ drop j xs)"

definition arrays_removeAt :: "'a list \<Rightarrow> int \<Rightarrow> 'a option \<times> 'a list" where
  "arrays_removeAt xs index =
     (if index < 0 \<or> index \<ge> int (length xs) then (None, xs)
      else (Some (xs ! nat index), take (nat index) xs @ drop (Suc (nat index)) xs))"

definition arrays_move :: "'a list \<Rightarrow> int \<Rightarrow> int \<Rightarrow> 'a list" where
  "arrays_move xs fromIndex toIndex =
     (if toIndex < 0 \<or> toIndex \<ge> int (length xs) then xs
      else if fromIndex < 0 \<or> fromIndex \<ge> int (length xs) then xs
      else (let v = xs ! nat fromIndex;
                ys = take (nat fromIndex) xs @ drop (Suc (nat fromIndex)) xs
            in take (nat toIndex) ys @ [v] @ drop (nat toIndex) ys))"

text \<open>\<open>Array.prototype.indexOf\<close>: the first index of the value, or \<open>-1\<close>.\<close>

fun indexOfFrom :: "'a list \<Rightarrow> 'a \<Rightarrow> int \<Rightarrow> int" where
  "indexOfFrom [] v i = -1"
| "indexOfFrom (x # xs) v i = (if x = v then i else indexOfFrom xs v (i + 1))"

text \<open>\<open>hitTest\<close> of phosphor-domutil: the point lies in the node's bounding rectangle.\<close>

definition hitTest :: "tab_node \<Rightarrow> int \<Rightarrow> int \<Rightarrow> bool" where
  "hitTest node x y =
     (x \<ge> rect_left (bounds node) \<and> x < rect_right (bounds node) \<and>
      y \<ge> rect_top (bounds node) \<and> y < rect_bottom (bounds node))"

text \<open>\<open>Widget.update()\<close>: posts an update request; requests not yet delivered coalesce.\<close>

definition update :: "tabbar \<Rightarrow> tabbar" where
  "update tb = tb\<lparr>updateRequested := True\<rparr>"

subsection \<open>Accessors\<close>

definition titleCount :: "tabbar \<Rightarrow> int" where
  "titleCount tb = int (length (titles tb))"

definition titleAt :: "tabbar \<Rightarrow> int \<Rightarrow> title option" where
  "titleAt tb index =
     (if 0 \<le> index \<and> index < int (length (titles tb)) then Some (titles tb ! nat index)
      else None)"

definition titleIndex :: "tabbar \<Rightarrow> title \<Rightarrow> int" where
  "titleIndex tb t = indexOfFrom (titles tb) t 0"

subsection \<open>The property \<open>currentTitle\<close>\<close>

text \<open>
  \<open>coerceCurrentTitle\<close> and \<open>onCurrentTitleChanged\<close> are the handlers of the source.
  \<open>Property.set\<close> of phosphor-properties stores the coerced value and, when it differs
  from the old one, calls the change handler and then emits the notify signal with the
  old and the new value. \<open>Property.get\<close> returns the stored value as it is.
\<close>

definition coerceCurrentTitle :: "tabbar \<Rightarrow> title option \<Rightarrow> title option" where
  "coerceCurrentTitle owner v =
     (case v of
        None \<Rightarrow> None
      | Some t \<Rightarrow> if titleIndex owner t \<noteq> -1 then Some t else None)"

definition onCurrentTitleChanged :: "tabbar \<Rightarrow> tabbar" where
  "onCurrentTitleChanged owner = update owner"

definition setCurrentTitle :: "tabbar \<Rightarrow> title option \<Rightarrow> tabbar" where
  "setCurrentTitle tb v =
     (let oldValue = currentTitle tb;
          newValue = coerceCurrentTitle tb v;
          tb1 = tb\<lparr>currentTitle := newValue\<rparr>
      in if oldValue = newValue then tb1
         else (let tb2 = onCurrentTitleChanged tb1
               in tb2\<lparr>signals := signals tb2 @ [CurrentChanged oldValue newValue]\<rparr>))"

subsection \<open>Releasing the mouse\<close>

definition releaseMouse :: "tabbar \<Rightarrow> tabbar" where
  "releaseMouse tb =
     (case dragData tb of
        None \<Rightarrow> tb
      | Some data \<Rightarrow>
          (let tb1 = tb\<lparr>dragData := None, docListeners := False\<rparr>
           in if \<not> dragActive data then tb1
              else tb1\<lparr>tabs :=
                         map (\<lambda>node. if node_id node = drag_tab data
                                      then node\<lparr>tab_dragging := False\<rparr> else node)
                           (map (\<lambda>node. node\<lparr>style_left := None\<rparr>) (tabs tb1)),
                       cursorOverride := False,
                       barDragging := False\<rparr>))"

subsection \<open>Mutating the title collection\<close>

definition insertTitle :: "tabbar \<Rightarrow> int \<Rightarrow> title \<Rightarrow> tabbar" where
  "insertTitle tb0 index t =
     (let tb = releaseMouse tb0;
          n = titleCount tb;
          i = titleIndex tb t;
          j = max 0 (min (toInt32 index) n)
      in if i \<noteq> -1 then
           (let j' = (if j = n then j - 1 else j)
            in if i = j' then tb
               else update (tb\<lparr>titles := arrays_move (titles tb) i j', dirty := True\<rparr>))
         else
           (let tb1 = tb\<lparr>titles := arrays_insert (titles tb) j t,
                         connected := insert t (connected tb)\<rparr>;
                tb2 = (if currentTitle tb1 = None then setCurrentTitle tb1 (Some t) else tb1)
            in update (tb2\<lparr>dirty := True\<rparr>)))"

definition addTitle :: "tabbar \<Rightarrow> title \<Rightarrow> tabbar" where
  "addTitle tb t = insertTitle tb (titleCount tb) t"

definition removeTitleAt :: "tabbar \<Rightarrow> int \<Rightarrow> tabbar" where
  "removeTitleAt tb0 index =
     (let tb = releaseMouse tb0;
          i = toInt32 index
      in if i < 0 \<or> i \<ge> int (length (titles tb)) then tb
         else
           (case arrays_removeAt (titles tb) i of
              (None, ts) \<Rightarrow> tb
            | (Some t, ts) \<Rightarrow>
                (let tb1 = tb\<lparr>titles := ts, connected := connected tb - {t}\<rparr>;
                     tb2 = (if currentTitle tb1 = Some t
                            then setCurrentTitle tb1
                                   (case titleAt tb1 i of
                                      Some a \<Rightarrow> Some a
                                    | None \<Rightarrow> titleAt tb1 (i - 1))
                            else tb1)
                 in update (tb2\<lparr>dirty := True\<rparr>))))"

definition removeTitle :: "tabbar \<Rightarrow> title \<Rightarrow> tabbar" where
  "removeTitle tb t = removeTitleAt tb (titleIndex tb t)"

text \<open>The loop of \<open>clearTitles\<close>: pop the last title and disconnect it, until none is left.\<close>

function clearLoop :: "tabbar \<Rightarrow> tabbar" where
  "clearLoop tb =
     (if length (titles tb) > 0
      then clearLoop (tb\<lparr>titles := butlast (titles tb),
                         connected := connected tb - {last (titles tb)}\<rparr>)
      else tb)"
  by pat_completeness auto
termination
  by (relation "measure (\<lambda>tb. length (titles tb))") auto

declare clearLoop.simps [simp del]

definition clearTitles :: "tabbar \<Rightarrow> tabbar" where
  "clearTitles tb0 = update ((clearLoop (releaseMouse tb0))\<lparr>dirty := True\<rparr>)"

text \<open>
  \<open>dispose\<close>: the mouse is released and the array emptied, then the base class
  disposes of the widget; \<open>Widget.dispose\<close> is not part of the source and is a parameter.
\<close>

definition dispose :: "(tabbar \<Rightarrow> tabbar) \<Rightarrow> tabbar \<Rightarrow> tabbar" where
  "dispose super_dispose tb = super_dispose ((releaseMouse tb)\<lparr>titles := []\<rparr>)"

definition onTitleChanged :: "tabbar \<Rightarrow> tabbar" where
  "onTitleChanged tb = update (tb\<lparr>dirty := True\<rparr>)"

subsection \<open>The event handlers\<close>

fun hitTestFrom :: "tab_node list \<Rightarrow> int \<Rightarrow> int \<Rightarrow> int \<Rightarrow> int" where
  "hitTestFrom [] x y i = -1"
| "hitTestFrom (node # nodes) x y i =
     (if hitTest node x y then i else hitTestFrom nodes x y (i + 1))"

definition hitTestTabs :: "tabbar \<Rightarrow> int \<Rightarrow> int \<Rightarrow> int" where
  "hitTestTabs owner x y = hitTestFrom (tabs owner) x y 0"

definition closeIconNode :: "tabbar \<Rightarrow> int \<Rightarrow> nat list" where
  "closeIconNode owner index = closeIcon (tabs owner ! nat index)"

definition stopEvent :: "dom_event \<Rightarrow> dom_event" where
  "stopEvent ev = ev\<lparr>defaultPrevented := True, propagationStopped := True\<rparr>"

text \<open>
  \<open>_evtClick\<close>. The hit index is that of a tab node, so \<open>closeIconNode\<close> reads inside the
  node list; \<open>_titles[i]\<close> is \<open>undefined\<close> when the nodes outnumber the titles, and reading
  \<open>closable\<close> of it throws, after the event has been stopped.
\<close>

definition evtClick ::
  "(title \<Rightarrow> bool) \<Rightarrow> tabbar \<Rightarrow> dom_event \<Rightarrow> (dom_event \<times> tabbar) outcome" where
  "evtClick closable tb ev =
     (if button ev \<noteq> 0 then Done (ev, tb)
      else (let i = hitTestTabs tb (clientX ev) (clientY ev)
            in if i < 0 then Done (ev, tb)
               else (let ev1 = stopEvent ev
                     in case titleAt tb i of
                          None \<Rightarrow> Threw TypeError (ev1, tb)
                        | Some t \<Rightarrow>
                            if \<not> closable t then Done (ev1, tb)
                            else if target ev \<notin> set (closeIconNode tb i) then Done (ev1, tb)
                            else Done (ev1, tb\<lparr>signals := signals tb @ [TabCloseRequested t]\<rparr>))))"

definition evtMouseDown :: "tabbar \<Rightarrow> dom_event \<Rightarrow> dom_event \<times> tabbar" where
  "evtMouseDown tb ev =
     (if button ev \<noteq> 0 then (ev, tb)
      else if dragData tb \<noteq> None then (ev, tb)
      else (let i = hitTestTabs tb (clientX ev) (clientY ev)
            in if i < 0 then (ev, tb)
               else (let ev1 = stopEvent ev
                     in if target ev \<in> set (closeIconNode tb i) then (ev1, tb)
                        else (let t = titleAt tb i;
                                  tab = tabs tb ! nat i;
                                  tb1 = (if tabsMovable tb
                                         then tb\<lparr>dragData := Some
                                                \<lparr> drag_title = t,
                                                  drag_tab = node_id tab,
                                                  tabIndex = i,
                                                  tabLeft = offsetLeft tab,
                                                  tabWidth = rect_right (bounds tab) - rect_left (bounds tab),
                                                  tabPressX = clientX ev - rect_left (bounds tab),
                                                  tabTargetIndex = -1,
                                                  pressX = clientX ev,
                                                  pressY = clientY ev,
                                                  dragActive = False,
                                                  detachRequested = False \<rparr>,
                                               docListeners := True\<rparr>
                                         else tb)
                              in (ev1, setCurrentTitle tb1 t)))))"

text \<open>
  \<open>handleEvent\<close>: the \<open>switch\<close> has the cases \<open>'click'\<close> and \<open>'mousedown'\<close>; the cases
  \<open>'mousemove'\<close> and \<open>'mouseup'\<close> are commented out in the source, so these events,
  like any other, fall through the \<open>switch\<close>.
\<close>

definition handleEvent ::
  "(title \<Rightarrow> bool) \<Rightarrow> tabbar \<Rightarrow> dom_event \<Rightarrow> (dom_event \<times> tabbar) outcome" where
  "handleEvent closable tb ev =
     (case etype ev of
        Click \<Rightarrow> evtClick closable tb ev
      | MouseDown \<Rightarrow> Done (evtMouseDown tb ev)
      | _ \<Rightarrow> Done (ev, tb))"

text \<open>
  Events reach the bar one after the other through \<open>handleEvent\<close>; an exception leaves
  the handler and the next event is dispatched on the state reached.
\<close>

definition dispatch :: "(title \<Rightarrow> bool) \<Rightarrow> tabbar \<Rightarrow> dom_event \<Rightarrow> tabbar" where
  "dispatch closable tb ev = snd (state_of (handleEvent closable tb ev))"

subsection \<open>The current title is null or a member\<close>

text \<open>
  The property that the data model asks of the current selection: the stored value of
  \<open>currentTitle\<close> is null or a title of the collection.
\<close>

definition currentIsMember :: "tabbar \<Rightarrow> bool" where
  "currentIsMember tb =
     (case currentTitle tb of None \<Rightarrow> True | Some c \<Rightarrow> c \<in> set (titles tb))"

subsection \<open>The capture listeners belong to the drag session\<close>

text \<open>
  The resource discipline of the drag session: the capture listeners on the document
  are installed exactly while a drag session is open.
\<close>

definition sessionOwnsListeners :: "tabbar \<Rightarrow> bool" where
  "sessionOwnsListeners tb = (docListeners tb = (dragData tb \<noteq> None))"

subsection \<open>A bar with two tabs\<close>

text \<open>
  The titles A and B, and the bar that shows them: both were added to a new bar, the
  update pass has rendered a tab node for each (A at x in [0, 100), B at x in [100, 200),
  both at y in [0, 30), the close icons being the nodes 13 and 23) and the tabs were
  made movable.
\<close>

definition titleA :: title where
  "titleA = Title 0"

definition titleB :: title where
  "titleB = Title 1"

definition titleC :: title where
  "titleC = Title 2"

definition tabNodeA :: tab_node where
  "tabNodeA = \<lparr> node_id = 10,
     bounds = \<lparr> rect_left = 0, rect_top = 0, rect_right = 100, rect_bottom = 30 \<rparr>,
     offsetLeft = 0, closeIcon = [13], style_left = None, tab_dragging = False \<rparr>"

definition tabNodeB :: tab_node where
  "tabNodeB = \<lparr> node_id = 20,
     bounds = \<lparr> rect_left = 100, rect_top = 0, rect_right = 200, rect_bottom = 30 \<rparr>,
     offsetLeft = 100, closeIcon = [23], style_left = None, tab_dragging = False \<rparr>"

definition barAB :: tabbar where
  "barAB = (addTitle (addTitle newTabBar titleA) titleB)
     \<lparr> dirty := False, tabsMovable := True, updateRequested := False,
       tabs := [tabNodeA, tabNodeB] \<rparr>"

definition mouseEvent :: "event_type \<Rightarrow> int \<Rightarrow> int \<Rightarrow> nat \<Rightarrow> dom_event" where
  "mouseEvent ty x y node = \<lparr> etype = ty, button = 0, clientX = x, clientY = y,
     target = node, defaultPrevented = False, propagationStopped = False \<rparr>"

text \<open>The drag data that a press on the text of tab B (node 21) at (150, 10) leaves.\<close>

definition pressedB :: DragData where
  "pressedB = \<lparr> drag_title = Some titleB, drag_tab = 20, tabIndex = 1, tabLeft = 100,
     tabWidth = 100, tabPressX = 50, tabTargetIndex = -1, pressX = 150, pressY = 10,
     dragActive = False, detachRequested = False \<rparr>"

text \<open>The bar after that press: the drag data is set and B is current.\<close>

definition barPressedB :: tabbar where
  "barPressedB = dispatch (\<lambda>t. False) barAB (mouseEvent MouseDown 150 10 21)"

section \<open>Lemmas about the libraries and the helpers\<close>

lemma toInt32_id: "- 2147483648 \<le> x \<Longrightarrow> x < 2147483648 \<Longrightarrow> toInt32 x = x"
  by (simp add: toInt32_def)

lemma toInt32_range: "- 2147483648 \<le> toInt32 x \<and> toInt32 x < 2147483648"
  unfolding toInt32_def
  using pos_mod_bound [of 4294967296 "x + 2147483648"]
    pos_mod_sign [of 4294967296 "x + 2147483648"]
  by linarith

lemma indexOfFrom_notin: "v \<notin> set xs \<Longrightarrow> indexOfFrom xs v i = -1"
  by (induction xs arbitrary: i) auto

lemma indexOfFrom_in:
  "v \<in> set xs \<Longrightarrow> i \<le> indexOfFrom xs v i \<and> indexOfFrom xs v i < i + int (length xs)
     \<and> xs ! nat (indexOfFrom xs v i - i) = v"
proof (induction xs arbitrary: i)
  case Nil
  then show ?case by simp
next
  case (Cons x xs)
  show ?case
  proof (cases "x = v")
    case True
    then show ?thesis by simp
  next
    case False
    with Cons.prems have "v \<in> set xs" by simp
    from Cons.IH [OF this, of "i + 1"]
    have ih: "i + 1 \<le> indexOfFrom xs v (i + 1)"
      "indexOfFrom xs v (i + 1) < i + 1 + int (length xs)"
      "xs ! nat (indexOfFrom xs v (i + 1) - (i + 1)) = v" by simp_all
    have "nat (indexOfFrom xs v (i + 1) - i) = Suc (nat (indexOfFrom xs v (i + 1) - (i + 1)))"
      using ih(1) by linarith
    with ih False show ?thesis by simp
  qed
qed

lemma titleIndex_notin: "t \<notin> set (titles tb) \<Longrightarrow> titleIndex tb t = -1"
  by (simp add: titleIndex_def indexOfFrom_notin)

lemma titleIndex_in:
  assumes "t \<in> set (titles tb)"
  shows "0 \<le> titleIndex tb t" and "titleIndex tb t < int (length (titles tb))"
    and "titles tb ! nat (titleIndex tb t) = t"
  using indexOfFrom_in [OF assms, of 0] by (simp_all add: titleIndex_def)

lemma titleIndex_member: "titleIndex tb t \<noteq> -1 \<longleftrightarrow> t \<in> set (titles tb)"
  using titleIndex_notin [of t tb] titleIndex_in(1) [of t tb] by auto

lemma indexOfFrom_prefix:
  "v \<notin> set xs \<Longrightarrow> indexOfFrom (xs @ v # ys) v i = i + int (length xs)"
  by (induction xs arbitrary: i) auto

lemma hitTestFrom_range:
  "hitTestFrom nodes x y i = -1 \<or>
   (i \<le> hitTestFrom nodes x y i \<and> hitTestFrom nodes x y i < i + int (length nodes))"
  by (induction nodes arbitrary: i) (auto, force+)

lemma releaseMouse_fields [simp]:
  "titles (releaseMouse tb) = titles tb"
  "currentTitle (releaseMouse tb) = currentTitle tb"
  "connected (releaseMouse tb) = connected tb"
  "signals (releaseMouse tb) = signals tb"
  "dirty (releaseMouse tb) = dirty tb"
  "updateRequested (releaseMouse tb) = updateRequested tb"
  "tabsMovable (releaseMouse tb) = tabsMovable tb"
  "dragData (releaseMouse tb) = None"
  by (simp_all add: releaseMouse_def Let_def split: option.splits)

lemma releaseMouse_idle: "dragData tb = None \<Longrightarrow> releaseMouse tb = tb"
  by (simp add: releaseMouse_def)

lemma releaseMouse_listeners:
  "docListeners (releaseMouse tb) = (docListeners tb \<and> dragData tb = None)"
  by (simp add: releaseMouse_def Let_def split: option.splits)

lemma titleIndex_releaseMouse [simp]: "titleIndex (releaseMouse tb) t = titleIndex tb t"
  by (simp add: titleIndex_def)

lemma titleCount_releaseMouse [simp]: "titleCount (releaseMouse tb) = titleCount tb"
  by (simp add: titleCount_def)

lemma clearLoop_titles: "titles (clearLoop tb) = []"
proof (induction tb rule: clearLoop.induct)
  case (1 tb)
  then show ?case by (subst clearLoop.simps) simp
qed

lemma clearLoop_current: "currentTitle (clearLoop tb) = currentTitle tb"
proof (induction tb rule: clearLoop.induct)
  case (1 tb)
  then show ?case by (subst clearLoop.simps) simp
qed

lemma setCurrentTitle_titles [simp]: "titles (setCurrentTitle tb v) = titles tb"
  by (simp add: setCurrentTitle_def Let_def onCurrentTitleChanged_def update_def)

lemma setCurrentTitle_current [simp]:
  "currentTitle (setCurrentTitle tb v) = coerceCurrentTitle tb v"
  by (simp add: setCurrentTitle_def Let_def onCurrentTitleChanged_def update_def)

lemma coerce_member: "t \<in> set (titles tb) \<Longrightarrow> coerceCurrentTitle tb (Some t) = Some t"
  by (simp add: coerceCurrentTitle_def titleIndex_member)

lemma coerce_nonmember: "t \<notin> set (titles tb) \<Longrightarrow> coerceCurrentTitle tb (Some t) = None"
  by (simp add: coerceCurrentTitle_def titleIndex_notin)

lemma coerce_None [simp]: "coerceCurrentTitle tb None = None"
  by (simp add: coerceCurrentTitle_def)

text \<open>The two-tab bar, field by field, and what a press on tab B makes of it.\<close>

lemmas example_defs = titleA_def titleB_def titleC_def tabNodeA_def tabNodeB_def
  mouseEvent_def pressedB_def

lemmas method_defs = addTitle_def insertTitle_def titleCount_def titleIndex_def toInt32_def
  releaseMouse_def arrays_insert_def arrays_move_def arrays_removeAt_def setCurrentTitle_def
  coerceCurrentTitle_def Let_def onCurrentTitleChanged_def update_def titleAt_def
  removeTitleAt_def removeTitle_def

lemmas handler_defs = dispatch_def handleEvent_def evtClick_def evtMouseDown_def
  hitTestTabs_def hitTest_def closeIconNode_def stopEvent_def

lemma barAB_fields:
  "barAB = \<lparr> titles = [titleA, titleB], currentTitle = Some titleA, dirty = False,
     tabsMovable = True, dragData = None, connected = {titleA, titleB},
     signals = [CurrentChanged None (Some titleA)], updateRequested = False,
     docListeners = False, tabs = [tabNodeA, tabNodeB], barDragging = False,
     cursorOverride = False \<rparr>"
  by (simp add: barAB_def newTabBar_def method_defs titleA_def titleB_def insert_commute)

lemma press_on_B:
  "dispatch c barAB (mouseEvent MouseDown 150 10 21) =
     barAB\<lparr>dragData := Some pressedB, docListeners := True, currentTitle := Some titleB,
       updateRequested := True,
       signals := [CurrentChanged None (Some titleA), CurrentChanged (Some titleA) (Some titleB)]\<rparr>"
  by (simp add: barAB_fields) (simp add: example_defs method_defs handler_defs)

lemma move_and_release_ignored:
  "etype ev = MouseMove \<or> etype ev = MouseUp \<or> etype ev = KeyDown \<Longrightarrow> dispatch c tb ev = tb"
  by (auto simp: dispatch_def handleEvent_def)

lemma barPressedB_fields:
  "barPressedB = \<lparr> titles = [titleA, titleB], currentTitle = Some titleB, dirty = False,
     tabsMovable = True, dragData = Some pressedB, connected = {titleA, titleB},
     signals = [CurrentChanged None (Some titleA), CurrentChanged (Some titleA) (Some titleB)],
     updateRequested = True, docListeners = True, tabs = [tabNodeA, tabNodeB],
     barDragging = False, cursorOverride = False \<rparr>"
  by (simp add: barPressedB_def press_on_B) (simp add: barAB_fields)

lemma clearTitles_result:
  "titles (clearTitles tb) = [] \<and> currentTitle (clearTitles tb) = currentTitle tb"
  by (simp add: clearTitles_def update_def clearLoop_titles clearLoop_current)

lemma addTitle_A_fields:
  "addTitle newTabBar titleA = newTabBar\<lparr>titles := [titleA], currentTitle := Some titleA,
     dirty := True, connected := {titleA}, signals := [CurrentChanged None (Some titleA)],
     updateRequested := True\<rparr>"
  by (simp add: newTabBar_def method_defs)

lemma setCurrentTitle_same:
  "coerceCurrentTitle tb v = currentTitle tb \<Longrightarrow> setCurrentTitle tb v = tb"
  by (simp add: setCurrentTitle_def Let_def)

lemma setCurrentTitle_signals:
  "signals (setCurrentTitle tb v) =
     (if currentTitle tb = coerceCurrentTitle tb v then signals tb
      else signals tb @ [CurrentChanged (currentTitle tb) (coerceCurrentTitle tb v)])"
  by (simp add: setCurrentTitle_def Let_def onCurrentTitleChanged_def update_def)

lemma insertTitle_new:
  assumes "t \<notin> set (titles tb)"
  shows "insertTitle tb index t =
     (let j = max 0 (min (toInt32 index) (int (length (titles tb))));
          tb1 = (releaseMouse tb)\<lparr>titles := arrays_insert (titles tb) j t,
                                   connected := insert t (connected tb)\<rparr>;
          tb2 = (if currentTitle tb = None then setCurrentTitle tb1 (Some t) else tb1)
      in update (tb2\<lparr>dirty := True\<rparr>))"
  using assms by (simp add: insertTitle_def Let_def titleIndex_notin titleCount_def)

lemma insertTitle_member:
  assumes "t \<in> set (titles tb)"
  shows "insertTitle tb index t =
     (let n = int (length (titles tb));
          j = max 0 (min (toInt32 index) n);
          j' = (if j = n then j - 1 else j)
      in if titleIndex tb t = j' then releaseMouse tb
         else update ((releaseMouse tb)\<lparr>titles := arrays_move (titles tb) (titleIndex tb t) j',
                                         dirty := True\<rparr>))"
proof -
  have ne: "titleIndex tb t \<noteq> -1"
    using titleIndex_in(1) [OF assms] by simp
  show ?thesis
    unfolding insertTitle_def Let_def
    by (simp only: titleIndex_releaseMouse titleCount_releaseMouse releaseMouse_fields ne
        titleCount_def simp_thms if_True)
qed

lemma arrays_insert_mem: "v \<in> set (arrays_insert xs j v)"
  by (simp add: arrays_insert_def Let_def)

lemma currentTitle_after_insert:
  "currentTitle (insertTitle tb index t) =
     (if currentTitle tb = None \<and> t \<notin> set (titles tb) then Some t else currentTitle tb)"
proof (cases "t \<in> set (titles tb)")
  case True
  then show ?thesis
    by (simp add: insertTitle_member Let_def update_def)
next
  case False
  then show ?thesis
    by (simp add: insertTitle_new Let_def update_def coerce_member arrays_insert_mem)
qed

lemma arrays_move_length:
  "length (arrays_move xs i j) = length xs"
  by (auto simp: arrays_move_def Let_def)

lemma arrays_move_nth:
  assumes "0 \<le> i" "i < int (length xs)" "0 \<le> j" "j < int (length xs)"
  shows "arrays_move xs i j ! nat j = xs ! nat i"
proof -
  let ?ys = "take (nat i) xs @ drop (Suc (nat i)) xs"
  have "length ?ys = length xs - 1" using assms by auto
  with assms have "length (take (nat j) ?ys) = nat j" by auto
  then have "(take (nat j) ?ys @ [xs ! nat i] @ drop (nat j) ?ys) ! nat j = xs ! nat i"
    by (metis append_Cons nth_append_length)
  with assms show ?thesis by (simp add: arrays_move_def Let_def)
qed

lemma arrays_insert_index:
  assumes "0 \<le> j" "j \<le> int (length xs)"
  shows "arrays_insert xs j v = take (nat j) xs @ v # drop (nat j) xs"
  using assms by (simp add: arrays_insert_def Let_def)

lemma insertTitle_new_result:
  assumes new: "t \<notin> set (titles tb)"
    and j: "j = max 0 (min (toInt32 index) (int (length (titles tb))))"
  shows "0 \<le> j \<and> j \<le> int (length (titles tb)) \<and>
     titles (insertTitle tb index t) = take (nat j) (titles tb) @ t # drop (nat j) (titles tb) \<and>
     titleIndex (insertTitle tb index t) t = j"
proof -
  have jr: "0 \<le> j" "j \<le> int (length (titles tb))"
    by (simp_all add: j)
  have "titles (insertTitle tb index t) = arrays_insert (titles tb) j t"
    unfolding insertTitle_new [OF new] Let_def j update_def by simp
  then have ts: "titles (insertTitle tb index t)
      = take (nat j) (titles tb) @ t # drop (nat j) (titles tb)"
    using jr by (simp add: arrays_insert_index)
  have "nat j \<le> length (titles tb)"
    using jr by linarith
  then have len: "int (length (take (nat j) (titles tb))) = j"
    using jr by simp
  have "t \<notin> set (take (nat j) (titles tb))"
    using new by (meson in_set_takeD)
  then have "indexOfFrom (take (nat j) (titles tb) @ t # drop (nat j) (titles tb)) t 0
      = 0 + int (length (take (nat j) (titles tb)))"
    by (rule indexOfFrom_prefix)
  then have "titleIndex (insertTitle tb index t) t = j"
    unfolding titleIndex_def ts len by simp
  with ts jr show ?thesis by simp
qed

lemma insertTitle_member_result:
  assumes mem: "t \<in> set (titles tb)"
    and j: "j = max 0 (min (toInt32 index) (int (length (titles tb))))"
    and j': "j' = (if j = int (length (titles tb)) then j - 1 else j)"
  shows "0 \<le> j' \<and> j' \<le> int (length (titles tb)) - 1 \<and>
     (titleIndex tb t = j' \<longrightarrow> insertTitle tb index t = releaseMouse tb) \<and>
     (titleIndex tb t \<noteq> j' \<longrightarrow>
        titles (insertTitle tb index t) = arrays_move (titles tb) (titleIndex tb t) j' \<and>
        length (titles (insertTitle tb index t)) = length (titles tb) \<and>
        titles (insertTitle tb index t) ! nat j' = t)"
proof -
  have jr: "0 \<le> j" "j \<le> int (length (titles tb))"
    by (simp_all add: j)
  from mem have "0 < int (length (titles tb))"
    by (cases "titles tb") auto
  with jr have j'r: "0 \<le> j'" "j' \<le> int (length (titles tb)) - 1"
    by (auto simp: j')
  have ir: "0 \<le> titleIndex tb t" "titleIndex tb t < int (length (titles tb))"
    "titles tb ! nat (titleIndex tb t) = t"
    using titleIndex_in [OF mem] by simp_all
  have eq: "insertTitle tb index t =
      (if titleIndex tb t = j' then releaseMouse tb
       else update ((releaseMouse tb)\<lparr>titles := arrays_move (titles tb) (titleIndex tb t) j',
                                       dirty := True\<rparr>))"
    unfolding insertTitle_member [OF mem] Let_def j' j ..
  have "arrays_move (titles tb) (titleIndex tb t) j' ! nat j' = titles tb ! nat (titleIndex tb t)"
    using ir j'r by (intro arrays_move_nth) simp_all
  with ir have nth: "arrays_move (titles tb) (titleIndex tb t) j' ! nat j' = t"
    by simp
  show ?thesis
  proof (cases "titleIndex tb t = j'")
    case True
    with eq j'r show ?thesis by simp
  next
    case False
    with eq have "titles (insertTitle tb index t) = arrays_move (titles tb) (titleIndex tb t) j'"
      by (simp add: update_def)
    with False j'r nth show ?thesis
      by (simp add: arrays_move_length)
  qed
qed

lemma setCurrentNone_fields:
  "setCurrentTitle (addTitle newTabBar titleA) None =
     (addTitle newTabBar titleA)\<lparr>currentTitle := None,
        signals := [CurrentChanged None (Some titleA), CurrentChanged (Some titleA) None]\<rparr>"
  by (simp add: addTitle_A_fields) (simp add: newTabBar_def method_defs)

lemma removeTitleAt_out_of_range:
  assumes "toInt32 index < 0 \<or> int (length (titles tb)) \<le> toInt32 index"
  shows "removeTitleAt tb index = releaseMouse tb"
  using assms by (auto simp: removeTitleAt_def Let_def)

lemma removeTitleAt_valid:
  assumes "0 \<le> toInt32 index" "toInt32 index < int (length (titles tb))"
  shows "removeTitleAt tb index =
     (let i = toInt32 index;
          t = titles tb ! nat i;
          tb1 = (releaseMouse tb)\<lparr>titles := take (nat i) (titles tb) @ drop (Suc (nat i)) (titles tb),
                                   connected := connected tb - {t}\<rparr>;
          tb2 = (if currentTitle tb = Some t
                 then setCurrentTitle tb1
                        (case titleAt tb1 i of Some a \<Rightarrow> Some a | None \<Rightarrow> titleAt tb1 (i - 1))
                 else tb1)
      in update (tb2\<lparr>dirty := True\<rparr>))"
proof -
  have rng: "\<not> (toInt32 index < 0 \<or> int (length (titles tb)) \<le> toInt32 index)"
    using assms by simp
  have rm: "arrays_removeAt (titles tb) (toInt32 index) =
      (Some (titles tb ! nat (toInt32 index)),
       take (nat (toInt32 index)) (titles tb) @ drop (Suc (nat (toInt32 index))) (titles tb))"
    using rng by (simp add: arrays_removeAt_def)
  show ?thesis
    unfolding removeTitleAt_def Let_def
    by (simp only: releaseMouse_fields rng rm if_False prod.case option.case) simp
qed

lemma next_best_title:
  assumes "0 \<le> i" "i \<le> int (length ts)"
  shows "(case titleAt (tb\<lparr>titles := ts\<rparr>) i of Some a \<Rightarrow> Some a
          | None \<Rightarrow> titleAt (tb\<lparr>titles := ts\<rparr>) (i - 1)) =
     (if nat i < length ts then Some (ts ! nat i)
      else if ts = [] then None else Some (last ts))"
proof (cases "nat i < length ts")
  case True
  with assms have "i < int (length ts)" by linarith
  with assms True show ?thesis by (simp add: titleAt_def)
next
  case False
  with assms have i: "i = int (length ts)" by linarith
  show ?thesis
  proof (cases "ts = []")
    case True
    with i show ?thesis by (simp add: titleAt_def)
  next
    case False
    then have "nat (int (length ts) - 1) = length ts - 1" by simp
    with False i show ?thesis
      by (simp add: titleAt_def last_conv_nth)
  qed
qed

lemma next_best_member:
  assumes "0 \<le> i" "i \<le> int (length ts)"
  shows "coerceCurrentTitle (tb\<lparr>titles := ts\<rparr>)
      (if nat i < length ts then Some (ts ! nat i)
       else if ts = [] then None else Some (last ts)) =
     (if nat i < length ts then Some (ts ! nat i)
      else if ts = [] then None else Some (last ts))"
  by (simp add: coerce_member)

lemma evtClick_hit:
  assumes "button ev = 0" "0 \<le> hitTestTabs tb (clientX ev) (clientY ev)"
  shows "evtClick closable tb ev =
     (let i = hitTestTabs tb (clientX ev) (clientY ev)
      in case titleAt tb i of
           None \<Rightarrow> Threw TypeError (stopEvent ev, tb)
         | Some t \<Rightarrow>
             if closable t \<and> target ev \<in> set (closeIconNode tb i)
             then Done (stopEvent ev, tb\<lparr>signals := signals tb @ [TabCloseRequested t]\<rparr>)
             else Done (stopEvent ev, tb))"
  using assms by (simp add: evtClick_def Let_def split: option.splits)

lemma hitTestTabs_barAB:
  "hitTestTabs barAB 190 10 = 1" "hitTestTabs barAB 90 10 = 0" "hitTestTabs barAB 150 10 = 1"
  by (simp_all add: barAB_fields hitTestTabs_def hitTest_def tabNodeA_def tabNodeB_def)

lemma currentIsMember_iff:
  "currentIsMember tb \<longleftrightarrow> (\<forall>c. currentTitle tb = Some c \<longrightarrow> c \<in> set (titles tb))"
  by (simp add: currentIsMember_def split: option.splits)

lemma set_insert_at: "set (take n ys @ [v] @ drop n ys) = insert v (set ys)"
proof -
  have "set (take n ys) \<union> set (drop n ys) = set ys"
    by (metis append_take_drop_id set_append)
  then show ?thesis by auto
qed

lemma coerce_is_member:
  "coerceCurrentTitle tb v = Some c \<Longrightarrow> c \<in> set (titles tb)"
  by (cases v) (auto simp: coerceCurrentTitle_def titleIndex_member split: if_splits)

lemma currentIsMember_assign: "currentIsMember (setCurrentTitle tb v)"
  using coerce_is_member [of tb v] by (simp add: currentIsMember_iff)

lemma set_arrays_move: "set (arrays_move xs i j) = set xs"
proof (cases "0 \<le> i \<and> i < int (length xs) \<and> 0 \<le> j \<and> j < int (length xs)")
  case True
  let ?ys = "take (nat i) xs @ drop (Suc (nat i)) xs"
  from True have "nat i < length xs"
    by linarith
  then have "xs = take (nat i) xs @ xs ! nat i # drop (Suc (nat i)) xs"
    by (rule id_take_nth_drop)
  then have xs: "set xs = insert (xs ! nat i) (set ?ys)"
    by (metis Un_insert_right list.simps(15) set_append)
  have "set (take (nat j) ?ys @ [xs ! nat i] @ drop (nat j) ?ys) = set xs"
    unfolding xs by (rule set_insert_at)
  with True show ?thesis
    by (simp add: arrays_move_def Let_def)
next
  case False
  then show ?thesis
    by (auto simp: arrays_move_def)
qed

lemma set_arrays_insert: "set (arrays_insert xs j v) = insert v (set xs)"
  unfolding arrays_insert_def Let_def by (rule set_insert_at)

lemma currentIsMember_insertTitle:
  assumes "currentIsMember tb"
  shows "currentIsMember (insertTitle tb index t)"
proof (cases "t \<in> set (titles tb)")
  case True
  have "set (titles (insertTitle tb index t)) = set (titles tb)"
    by (simp add: insertTitle_member [OF True] Let_def update_def set_arrays_move)
  moreover have "currentTitle (insertTitle tb index t) = currentTitle tb"
    using True by (simp add: currentTitle_after_insert)
  ultimately show ?thesis
    using assms by (simp add: currentIsMember_iff)
next
  case False
  have "set (titles (insertTitle tb index t)) = insert t (set (titles tb))"
    by (simp add: insertTitle_new [OF False] Let_def update_def set_arrays_insert)
  then show ?thesis
    using assms False
    by (auto simp: currentIsMember_iff currentTitle_after_insert split: if_splits)
qed

lemma remove_other_member:
  assumes "c \<in> set xs" "c \<noteq> xs ! i" "i < length xs"
  shows "c \<in> set (take i xs @ drop (Suc i) xs)"
proof -
  from assms(3) have "xs = take i xs @ xs ! i # drop (Suc i) xs"
    by (rule id_take_nth_drop)
  then have "set xs = insert (xs ! i) (set (take i xs @ drop (Suc i) xs))"
    by (metis Un_insert_right list.simps(15) set_append)
  with assms(1,2) show ?thesis by auto
qed

lemma currentIsMember_removeTitleAt:
  assumes "currentIsMember tb"
  shows "currentIsMember (removeTitleAt tb index)"
proof (cases "0 \<le> toInt32 index \<and> toInt32 index < int (length (titles tb))")
  case False
  then have "removeTitleAt tb index = releaseMouse tb"
    by (intro removeTitleAt_out_of_range) linarith
  with assms show ?thesis
    by (simp add: currentIsMember_iff)
next
  case True
  let ?i = "toInt32 index"
  let ?ts = "take (nat ?i) (titles tb) @ drop (Suc (nat ?i)) (titles tb)"
  let ?tb1 = "(releaseMouse tb)\<lparr>titles := ?ts, connected := connected tb - {titles tb ! nat ?i}\<rparr>"
  from True have v: "0 \<le> ?i" "?i < int (length (titles tb))" by simp_all
  have ts: "titles (removeTitleAt tb index) = ?ts"
    by (simp add: removeTitleAt_valid [OF v] Let_def update_def)
  show ?thesis
  proof (cases "currentTitle tb = Some (titles tb ! nat ?i)")
    case True
    then obtain w where "currentTitle (removeTitleAt tb index) = coerceCurrentTitle ?tb1 w"
      by (simp add: removeTitleAt_valid [OF v] Let_def update_def)
    with coerce_is_member [of ?tb1 w] ts show ?thesis
      by (simp add: currentIsMember_iff)
  next
    case False
    then have cur: "currentTitle (removeTitleAt tb index) = currentTitle tb"
      by (simp add: removeTitleAt_valid [OF v] Let_def update_def)
    show ?thesis
    proof (cases "currentTitle tb")
      case None
      with cur show ?thesis by (simp add: currentIsMember_iff)
    next
      case (Some c)
      with assms have "c \<in> set (titles tb)" by (simp add: currentIsMember_iff)
      moreover from Some False have "c \<noteq> titles tb ! nat ?i" by simp
      moreover from v have "nat ?i < length (titles tb)" by linarith
      ultimately have "c \<in> set ?ts" by (rule remove_other_member)
      with cur Some ts show ?thesis by (simp add: currentIsMember_iff)
    qed
  qed
qed

lemma currentIsMember_removeTitle:
  "currentIsMember tb \<Longrightarrow> currentIsMember (removeTitle tb t)"
  by (simp add: removeTitle_def currentIsMember_removeTitleAt)

lemma currentIsMember_releaseMouse:
  "currentIsMember tb \<Longrightarrow> currentIsMember (releaseMouse tb)"
  by (simp add: currentIsMember_iff)

lemma currentIsMember_new: "currentIsMember newTabBar"
  by (simp add: currentIsMember_def newTabBar_def)

lemma not_currentIsMember_clearTitles:
  "currentIsMember (clearTitles tb) \<longleftrightarrow> currentTitle tb = None"
  by (auto simp: currentIsMember_iff clearTitles_result)

lemma currentIsMember_dispatch:
  assumes "currentIsMember tb"
  shows "currentIsMember (dispatch closable tb ev)"
proof (cases "etype ev")
  case Click
  then have "currentTitle (dispatch closable tb ev) = currentTitle tb \<and>
      titles (dispatch closable tb ev) = titles tb"
    by (simp add: dispatch_def handleEvent_def evtClick_def Let_def split: option.splits)
  with assms show ?thesis
    by (simp add: currentIsMember_iff)
next
  case MouseDown
  then have "dispatch closable tb ev = snd (evtMouseDown tb ev)"
    by (simp add: dispatch_def handleEvent_def)
  then have "dispatch closable tb ev = tb \<or> (\<exists>tb1 v. dispatch closable tb ev = setCurrentTitle tb1 v)"
    by (auto simp: evtMouseDown_def Let_def)
  with assms show ?thesis
    by (auto simp: currentIsMember_assign)
qed (use assms in \<open>simp_all add: move_and_release_ignored\<close>)

lemma setCurrentTitle_session [simp]:
  "dragData (setCurrentTitle tb v) = dragData tb"
  "docListeners (setCurrentTitle tb v) = docListeners tb"
  by (simp_all add: setCurrentTitle_def Let_def onCurrentTitleChanged_def update_def)

lemma clearLoop_session:
  "dragData (clearLoop tb) = dragData tb \<and> docListeners (clearLoop tb) = docListeners tb"
proof (induction tb rule: clearLoop.induct)
  case (1 tb)
  then show ?case by (subst (1 2) clearLoop.simps) simp
qed

lemma insertTitle_session:
  "dragData (insertTitle tb index t) = None \<and>
   docListeners (insertTitle tb index t) = docListeners (releaseMouse tb)"
proof (cases "t \<in> set (titles tb)")
  case True
  then show ?thesis
    by (simp add: insertTitle_member Let_def update_def)
next
  case False
  then show ?thesis
    by (simp add: insertTitle_new Let_def update_def)
qed

lemma removeTitleAt_session:
  "dragData (removeTitleAt tb index) = None \<and>
   docListeners (removeTitleAt tb index) = docListeners (releaseMouse tb)"
proof (cases "0 \<le> toInt32 index \<and> toInt32 index < int (length (titles tb))")
  case True
  then show ?thesis
    by (simp add: removeTitleAt_valid Let_def update_def)
next
  case False
  then have "removeTitleAt tb index = releaseMouse tb"
    by (intro removeTitleAt_out_of_range) linarith
  then show ?thesis by simp
qed

lemma clearTitles_session:
  "dragData (clearTitles tb) = None \<and>
   docListeners (clearTitles tb) = docListeners (releaseMouse tb)"
  by (simp add: clearTitles_def update_def clearLoop_session)

lemma sessionOwnsListeners_new: "sessionOwnsListeners newTabBar"
  by (simp add: sessionOwnsListeners_def newTabBar_def)

lemma sessionOwnsListeners_released:
  "sessionOwnsListeners tb \<Longrightarrow> \<not> docListeners (releaseMouse tb)"
  by (auto simp: sessionOwnsListeners_def releaseMouse_listeners)

lemma sessionOwnsListeners_methods:
  assumes "sessionOwnsListeners tb"
  shows "sessionOwnsListeners (releaseMouse tb)"
    and "sessionOwnsListeners (insertTitle tb index t)"
    and "sessionOwnsListeners (removeTitleAt tb index)"
    and "sessionOwnsListeners (removeTitle tb t)"
    and "sessionOwnsListeners (clearTitles tb)"
    and "sessionOwnsListeners (setCurrentTitle tb v)"
  using assms sessionOwnsListeners_released [OF assms]
  by (simp_all add: sessionOwnsListeners_def insertTitle_session removeTitleAt_session
      clearTitles_session removeTitle_def)

lemma sessionOwnsListeners_dispatch:
  assumes "sessionOwnsListeners tb"
  shows "sessionOwnsListeners (dispatch closable tb ev)"
proof (cases "etype ev")
  case Click
  then have "dragData (dispatch closable tb ev) = dragData tb \<and>
      docListeners (dispatch closable tb ev) = docListeners tb"
    by (simp add: dispatch_def handleEvent_def evtClick_def Let_def split: option.splits)
  with assms show ?thesis
    by (simp add: sessionOwnsListeners_def)
next
  case MouseDown
  then have "dispatch closable tb ev = snd (evtMouseDown tb ev)"
    by (simp add: dispatch_def handleEvent_def)
  with assms show ?thesis
    by (auto simp: sessionOwnsListeners_def evtMouseDown_def Let_def)
qed (use assms in \<open>simp_all add: move_and_release_ignored\<close>)

lemma insertTitle_new_state:
  assumes new: "t \<notin> set (titles tb)"
    and j: "j = max 0 (min (toInt32 index) (int (length (titles tb))))"
  shows "insertTitle tb index t =
     (if currentTitle tb = None
      then setCurrentTitle
             ((releaseMouse tb)\<lparr>titles := take (nat j) (titles tb) @ t # drop (nat j) (titles tb),
                                 connected := insert t (connected tb)\<rparr>) (Some t)
      else (releaseMouse tb)\<lparr>titles := take (nat j) (titles tb) @ t # drop (nat j) (titles tb),
                               connected := insert t (connected tb)\<rparr>)
     \<lparr>dirty := True, updateRequested := True\<rparr>"
proof -
  have jr: "0 \<le> j" "j \<le> int (length (titles tb))"
    by (simp_all add: j)
  have ins: "arrays_insert (titles tb) j t = take (nat j) (titles tb) @ t # drop (nat j) (titles tb)"
    using jr by (rule arrays_insert_index)
  show ?thesis
    unfolding insertTitle_new [OF new] Let_def j [symmetric] ins update_def by simp
qed

lemma insertTitle_move_state:
  assumes mem: "t \<in> set (titles tb)"
    and j: "j = max 0 (min (toInt32 index) (int (length (titles tb))))"
    and j': "j' = (if j = int (length (titles tb)) then j - 1 else j)"
    and ne: "titleIndex tb t \<noteq> j'"
  shows "insertTitle tb index t =
     (releaseMouse tb)\<lparr>titles := arrays_move (titles tb) (titleIndex tb t) j',
                         dirty := True, updateRequested := True\<rparr>"
proof -
  have "insertTitle tb index t =
      (if titleIndex tb t = j' then releaseMouse tb
       else update ((releaseMouse tb)\<lparr>titles := arrays_move (titles tb) (titleIndex tb t) j',
                                       dirty := True\<rparr>))"
    unfolding insertTitle_member [OF mem] Let_def j' j ..
  with ne show ?thesis
    by (simp add: update_def)
qed

lemma removeTitleAt_valid_state:
  assumes v: "0 \<le> toInt32 index" "toInt32 index < int (length (titles tb))"
    and ts: "ts = take (nat (toInt32 index)) (titles tb) @ drop (Suc (nat (toInt32 index))) (titles tb)"
  shows "removeTitleAt tb index =
     (if currentTitle tb = Some (titles tb ! nat (toInt32 index))
      then setCurrentTitle
             ((releaseMouse tb)\<lparr>titles := ts,
                connected := connected tb - {titles tb ! nat (toInt32 index)}\<rparr>)
             (if nat (toInt32 index) < length ts then Some (ts ! nat (toInt32 index))
              else if ts = [] then None else Some (last ts))
      else (releaseMouse tb)\<lparr>titles := ts,
              connected := connected tb - {titles tb ! nat (toInt32 index)}\<rparr>)
     \<lparr>dirty := True, updateRequested := True\<rparr>"
proof -
  let ?i = "toInt32 index"
  let ?c = "connected tb - {titles tb ! nat ?i}"
  from v have le: "0 \<le> ?i" "?i \<le> int (length ts)"
    by (auto simp: ts)
  have tb1: "(releaseMouse tb)\<lparr>titles := ts, connected := ?c\<rparr>
      = ((releaseMouse tb)\<lparr>connected := ?c\<rparr>)\<lparr>titles := ts\<rparr>"
    by simp
  have nb: "(case titleAt ((releaseMouse tb)\<lparr>titles := ts, connected := ?c\<rparr>) ?i of
        Some a \<Rightarrow> Some a
      | None \<Rightarrow> titleAt ((releaseMouse tb)\<lparr>titles := ts, connected := ?c\<rparr>) (?i - 1))
      = (if nat ?i < length ts then Some (ts ! nat ?i)
         else if ts = [] then None else Some (last ts))"
    unfolding tb1 by (rule next_best_title [OF le])
  show ?thesis
    unfolding removeTitleAt_valid [OF v] Let_def ts [symmetric] nb update_def by simp
qed

section \<open>The claims\<close>

subsection \<open>C1: releasing a drag\<close>

text \<open>
  Claim C1 says that releasing the mouse after a drag whose target index differs from
  the starting index relocates the title and emits a tab-moved notification, as in the
  example: with [A, B], dragging B leftward past A's midpoint and releasing gives [B, A]
  and tab-moved (B, 1, 0). The code does not do this: \<open>handleEvent\<close> has no case for
  \<open>'mousemove'\<close> and \<open>'mouseup'\<close> (both are commented out), nothing ever writes
  \<open>tabTargetIndex\<close>, and the class has no tab-moved signal. On the example (press on B
  at x = 150, move to x = 30, release) the collection is still [A, B], the only signal
  of the gesture is the change of the current title that the press made, and the drag
  data and the document listeners of the press are still there.
\<close>

theorem drag_release_moves_nothing:
  "(let tb = foldl (dispatch c) barAB
       [mouseEvent MouseDown 150 10 21, mouseEvent MouseMove 30 10 11,
        mouseEvent MouseUp 30 10 11]
    in titles tb = [titleA, titleB] \<and>
       signals tb = [CurrentChanged None (Some titleA), CurrentChanged (Some titleA) (Some titleB)] \<and>
       dragData tb = Some pressedB \<and> docListeners tb)"
proof -
  have "foldl (dispatch c) barAB
     [mouseEvent MouseDown 150 10 21, mouseEvent MouseMove 30 10 11, mouseEvent MouseUp 30 10 11]
    = dispatch c barAB (mouseEvent MouseDown 150 10 21)"
    by (simp add: move_and_release_ignored mouseEvent_def)
  then show ?thesis
    by (simp add: press_on_B) (simp add: barAB_fields)
qed

subsection \<open>C2: the detach request\<close>

text \<open>
  Claim C2 says that the first movement of a drag that leaves the content area by more
  than the tear-off threshold (20) emits exactly one detach-requested notification. The
  code emits none: \<open>'mousemove'\<close> is not handled and the class has no such signal. After
  a press on B and two moves 30 and 40 pixels left of the content area, whose left edge
  is x = 0, the only signal of the gesture is the change of the current title, and the
  flag \<open>detachRequested\<close> of the drag data is still false.
\<close>

theorem tear_off_requests_nothing:
  "(let tb = foldl (dispatch c) barAB
       [mouseEvent MouseDown 150 10 21, mouseEvent MouseMove (- 30) 10 1,
        mouseEvent MouseMove (- 40) 10 1]
    in signals tb = [CurrentChanged None (Some titleA), CurrentChanged (Some titleA) (Some titleB)] \<and>
       map_option detachRequested (dragData tb) = Some False \<and>
       titles tb = [titleA, titleB])"
proof -
  have "foldl (dispatch c) barAB
     [mouseEvent MouseDown 150 10 21, mouseEvent MouseMove (- 30) 10 1,
      mouseEvent MouseMove (- 40) 10 1]
    = dispatch c barAB (mouseEvent MouseDown 150 10 21)"
    by (simp add: move_and_release_ignored mouseEvent_def)
  then show ?thesis
    by (simp add: press_on_B) (simp add: barAB_fields pressedB_def)
qed

subsection \<open>C3: the current title is a member\<close>

text \<open>
  Claim C3 says that after every public operation the current title is null or a member
  of the collection. \<open>clearTitles\<close> breaks it: it pops and disconnects every title and
  never assigns \<open>currentTitle\<close>, while \<open>removeTitleAt\<close> reassigns it when it removes
  the current title. After adding A to a new bar, A is current; after \<open>clearTitles\<close>
  the collection is empty and A is still current. The other operations keep the
  property (the lemmas on \<open>currentIsMember\<close> above): a new bar has it, an assignment
  to \<open>currentTitle\<close> establishes it, and \<open>insertTitle\<close>, \<open>removeTitleAt\<close>,
  \<open>removeTitle\<close>, \<open>releaseMouse\<close> and the event handlers preserve it.
\<close>

theorem clearTitles_keeps_current:
  "titles (addTitle newTabBar titleA) = [titleA] \<and>
   currentTitle (addTitle newTabBar titleA) = Some titleA \<and>
   titles (clearTitles (addTitle newTabBar titleA)) = [] \<and>
   currentTitle (clearTitles (addTitle newTabBar titleA)) = Some titleA"
  by (simp add: clearTitles_result) (simp add: addTitle_A_fields)

subsection \<open>C4: the index of an insertion\<close>

text \<open>
  Claim C4 says that \<open>insertTitle\<close> clamps the index into [0, count] for a new title
  and into [0, count - 1] for a member, and is a no-op when a member already sits at the
  resolved index. Two things differ in the code. The call releases the mouse before it
  looks at the title, so on a bar with an open drag session the "no-op" closes the
  session; and the index goes through \<open>index | 0\<close> before it is clamped, so an index of
  2^31 wraps to -2^31 and a new title lands at the front, not at the end.
\<close>

text \<open>
  Counterexample to C4 as stated: on the pressed bar, A is at index 0 and
  \<open>insertTitle(0, A)\<close> clears the drag data; on [A, B], inserting the new title C at
  index 2147483648 gives [C, A, B].
\<close>

theorem insertTitle_clamps_counterexample:
  "titleIndex barPressedB titleA = 0 \<and> dragData barPressedB = Some pressedB \<and>
   dragData (insertTitle barPressedB 0 titleA) = None \<and>
   titleC \<notin> set (titles barAB) \<and>
   titles (insertTitle barAB 2147483648 titleC) = [titleC, titleA, titleB]"
  by (simp add: barPressedB_fields barAB_fields)
     (simp add: method_defs titleA_def titleB_def titleC_def)

text \<open>
  Claim C4 as amended. Every call first releases any open drag session. Let j be
  \<open>index | 0\<close> clamped into [0, count], which is the index clamped for every index in
  the signed 32-bit range. A title that is not a member is inserted at j and is found
  there afterwards: the state after the call is the state that \<open>releaseMouse\<close> leaves,
  with the title inserted at j and connected, made current if the current title was
  null, the dirty flag set and an update requested. For a member, the resolved index j'
  is j, or count - 1 when j = count, so it lies in [0, count - 1]; if the member is at
  j' already, the call does what \<open>releaseMouse\<close> does and nothing else; otherwise the
  member is moved, the count stays, the member is at j' afterwards, and the state after
  the call is the state that \<open>releaseMouse\<close> leaves with the member moved, the dirty
  flag set and an update requested.
\<close>

theorem insertTitle_clamps:
  "(let n = int (length (titles tb));
        j = max 0 (min (toInt32 index) n);
        j' = (if j = n then j - 1 else j);
        i = titleIndex tb t;
        tb' = insertTitle tb index t;
        inserted = (releaseMouse tb)\<lparr>titles := take (nat j) (titles tb) @ t # drop (nat j) (titles tb),
                                      connected := insert t (connected tb)\<rparr>
    in (- 2147483648 \<le> index \<and> index < 2147483648 \<longrightarrow> toInt32 index = index) \<and>
       (t \<notin> set (titles tb) \<longrightarrow>
          0 \<le> j \<and> j \<le> n \<and>
          titles tb' = take (nat j) (titles tb) @ t # drop (nat j) (titles tb) \<and>
          titleIndex tb' t = j \<and>
          tb' = (if currentTitle tb = None then setCurrentTitle inserted (Some t) else inserted)
                  \<lparr>dirty := True, updateRequested := True\<rparr>) \<and>
       (t \<in> set (titles tb) \<longrightarrow>
          0 \<le> j' \<and> j' \<le> n - 1 \<and>
          (i = j' \<longrightarrow> tb' = releaseMouse tb) \<and>
          (i \<noteq> j' \<longrightarrow>
             titles tb' = arrays_move (titles tb) i j' \<and>
             length (titles tb') = length (titles tb) \<and>
             titles tb' ! nat j' = t \<and>
             tb' = (releaseMouse tb)\<lparr>titles := arrays_move (titles tb) i j',
                                       dirty := True, updateRequested := True\<rparr>)))"
  unfolding Let_def
proof (intro conjI impI)
  assume "- 2147483648 \<le> index \<and> index < 2147483648"
  then show "toInt32 index = index"
    by (simp add: toInt32_id)
next
  assume "t \<notin> set (titles tb)"
  then show "insertTitle tb index t =
      (if currentTitle tb = None
       then setCurrentTitle
         ((releaseMouse tb)
          \<lparr>titles := take (nat (max 0 (min (toInt32 index) (int (length (titles tb))))))
                       (titles tb) @
                      t # drop (nat (max 0 (min (toInt32 index) (int (length (titles tb))))))
                           (titles tb),
             connected := insert t (connected tb)\<rparr>) (Some t)
       else (releaseMouse tb)
          \<lparr>titles := take (nat (max 0 (min (toInt32 index) (int (length (titles tb))))))
                       (titles tb) @
                      t # drop (nat (max 0 (min (toInt32 index) (int (length (titles tb))))))
                           (titles tb),
             connected := insert t (connected tb)\<rparr>)
      \<lparr>dirty := True, updateRequested := True\<rparr>"
    by (rule insertTitle_new_state [OF _ refl])
next
  assume "t \<in> set (titles tb)"
    and "titleIndex tb t \<noteq>
      (if max 0 (min (toInt32 index) (int (length (titles tb)))) = int (length (titles tb))
       then max 0 (min (toInt32 index) (int (length (titles tb)))) - 1
       else max 0 (min (toInt32 index) (int (length (titles tb)))))"
  then show "insertTitle tb index t =
      (releaseMouse tb)
      \<lparr>titles := arrays_move (titles tb) (titleIndex tb t)
          (if max 0 (min (toInt32 index) (int (length (titles tb)))) = int (length (titles tb))
           then max 0 (min (toInt32 index) (int (length (titles tb)))) - 1
           else max 0 (min (toInt32 index) (int (length (titles tb))))),
         dirty := True, updateRequested := True\<rparr>"
    by (rule insertTitle_move_state [OF _ refl refl])
qed (use insertTitle_new_result [OF _ refl, of t tb index]
      insertTitle_member_result [OF _ refl refl, of t tb index] in blast)+

theorem insertTitle_clamps_witness:
  "titleC \<notin> set (titles barAB) \<and>
   titles (insertTitle barAB 10 titleC) = [titleA, titleB, titleC] \<and>
   titleIndex (insertTitle barAB 10 titleC) titleC = 2 \<and>
   titles (insertTitle barAB (- 1) titleC) = [titleC, titleA, titleB] \<and>
   titleA \<in> set (titles barAB) \<and>
   titles (insertTitle barAB 2 titleA) = [titleB, titleA] \<and>
   titleIndex barAB titleA = 0 \<and>
   insertTitle barAB 0 titleA = releaseMouse barAB \<and>
   dragData barPressedB = Some pressedB \<and>
   insertTitle barPressedB 10 titleC =
     (releaseMouse barPressedB)\<lparr>titles := [titleA, titleB, titleC],
        connected := {titleA, titleB, titleC}, dirty := True, updateRequested := True\<rparr> \<and>
   insertTitle barPressedB 2 titleA =
     (releaseMouse barPressedB)\<lparr>titles := [titleB, titleA], dirty := True,
        updateRequested := True\<rparr> \<and>
   dragData (insertTitle barPressedB 10 titleC) = None \<and>
   dragData (insertTitle barPressedB 2 titleA) = None"
proof -
  have ts: "titles barAB = [titleA, titleB]" "titles barPressedB = [titleA, titleB]"
    "currentTitle barPressedB = Some titleB" "connected barPressedB = {titleA, titleB}"
    "dragData barPressedB = Some pressedB" "currentTitle barAB = Some titleA"
    by (simp_all add: barAB_fields barPressedB_fields)
  have ne: "titleC \<noteq> titleA" "titleC \<noteq> titleB" "titleA \<noteq> titleB"
    by (simp_all add: titleA_def titleB_def titleC_def)
  have ix: "titleIndex barAB titleA = 0" "titleIndex barPressedB titleA = 0"
    by (simp_all add: titleIndex_def ts)
  have mv: "arrays_move [titleA, titleB] 0 1 = [titleB, titleA]"
    by (simp add: arrays_move_def)
  have cn: "insert titleC {titleA, titleB} = {titleA, titleB, titleC}"
    by auto
  from ne ix mv
    insertTitle_clamps [where tb = barAB and index = 10 and t = titleC]
    insertTitle_clamps [where tb = barAB and index = "- 1" and t = titleC]
    insertTitle_clamps [where tb = barAB and index = 2 and t = titleA]
    insertTitle_clamps [where tb = barAB and index = 0 and t = titleA]
    insertTitle_clamps [where tb = barPressedB and index = 10 and t = titleC]
    insertTitle_clamps [where tb = barPressedB and index = 2 and t = titleA]
  show ?thesis
    by (simp add: ts toInt32_def Let_def cn titleIndex_def)
qed

subsection \<open>C5: removing a title\<close>

text \<open>
  Claim C5 says that \<open>removeTitleAt\<close> with an index out of range leaves the tab bar
  unchanged, and that removing the current title makes the title now at that index
  current, or the new last title, or null. The second part holds. The first differs in
  the code: the mouse is released before the range check, and the range check is made
  on \<open>index | 0\<close>.
\<close>

text \<open>
  Counterexample to C5 as stated: on the pressed bar, \<open>removeTitleAt(5)\<close> clears the
  drag data and removes the document listeners; on [A, B], \<open>removeTitleAt(4294967296)\<close>,
  an index out of range that wraps to 0, removes A.
\<close>

theorem removeTitleAt_counterexample:
  "dragData barPressedB = Some pressedB \<and> docListeners barPressedB \<and>
   dragData (removeTitleAt barPressedB 5) = None \<and>
   \<not> docListeners (removeTitleAt barPressedB 5) \<and>
   titles barAB = [titleA, titleB] \<and>
   titles (removeTitleAt barAB 4294967296) = [titleB]"
  by (simp add: barPressedB_fields barAB_fields)
     (simp add: method_defs)

text \<open>
  Claim C5 as amended. Every call first releases any open drag session. Let i be
  \<open>index | 0\<close>, which is the index for every index in the signed 32-bit range. If i is
  out of range, the call does what \<open>releaseMouse\<close> does and nothing else. If i is in
  range, the title at i is removed, and if it was the current title, the current title
  becomes the title now at i, or the new last title when i is past the end, or null when
  no title is left: the state after the call is the state that \<open>releaseMouse\<close> leaves,
  with the title at i removed from the collection and disconnected, that next title
  assigned to \<open>currentTitle\<close> if the removed title was current, the dirty flag set and
  an update requested.
\<close>

theorem removeTitleAt_selects_next:
  "(let i = toInt32 index;
        n = int (length (titles tb));
        ts = take (nat i) (titles tb) @ drop (Suc (nat i)) (titles tb);
        tb' = removeTitleAt tb index;
        removed = (releaseMouse tb)\<lparr>titles := ts, connected := connected tb - {titles tb ! nat i}\<rparr>;
        next = (if nat i < length ts then Some (ts ! nat i)
                else if ts = [] then None else Some (last ts))
    in (- 2147483648 \<le> index \<and> index < 2147483648 \<longrightarrow> i = index) \<and>
       (i < 0 \<or> n \<le> i \<longrightarrow> tb' = releaseMouse tb) \<and>
       (0 \<le> i \<and> i < n \<longrightarrow>
          titles tb' = ts \<and>
          (currentTitle tb = Some (titles tb ! nat i) \<longrightarrow> currentTitle tb' = next) \<and>
          tb' = (if currentTitle tb = Some (titles tb ! nat i)
                 then setCurrentTitle removed next else removed)
                  \<lparr>dirty := True, updateRequested := True\<rparr>))"
  unfolding Let_def
proof (intro conjI impI)
  assume "- 2147483648 \<le> index \<and> index < 2147483648"
  then show "toInt32 index = index"
    by (simp add: toInt32_id)
next
  assume "toInt32 index < 0 \<or> int (length (titles tb)) \<le> toInt32 index"
  then show "removeTitleAt tb index = releaseMouse tb"
    by (rule removeTitleAt_out_of_range)
next
  assume v: "0 \<le> toInt32 index \<and> toInt32 index < int (length (titles tb))"
  then show "titles (removeTitleAt tb index) =
      take (nat (toInt32 index)) (titles tb) @ drop (Suc (nat (toInt32 index))) (titles tb)"
    by (simp add: removeTitleAt_valid Let_def update_def)
next
  let ?i = "toInt32 index"
  let ?ts = "take (nat ?i) (titles tb) @ drop (Suc (nat ?i)) (titles tb)"
  assume v: "0 \<le> ?i \<and> ?i < int (length (titles tb))"
    and cur: "currentTitle tb = Some (titles tb ! nat ?i)"
  from v have le: "0 \<le> ?i" "?i \<le> int (length ?ts)"
    by auto
  let ?next = "if nat ?i < length ?ts then Some (?ts ! nat ?i)
      else if ?ts = [] then None else Some (last ?ts)"
  let ?tb1 = "(releaseMouse tb)\<lparr>titles := ?ts, connected := connected tb - {titles tb ! nat ?i}\<rparr>"
  have tb1: "?tb1 = ((releaseMouse tb)\<lparr>connected := connected tb - {titles tb ! nat ?i}\<rparr>)\<lparr>titles := ?ts\<rparr>"
    by simp
  from v cur have "removeTitleAt tb index =
      (setCurrentTitle ?tb1 ?next)\<lparr>dirty := True, updateRequested := True\<rparr>"
    using removeTitleAt_valid_state [OF _ _ refl, of index tb] by simp
  then have "currentTitle (removeTitleAt tb index) = coerceCurrentTitle ?tb1 ?next"
    by simp
  also have "\<dots> = ?next"
    unfolding tb1 by (rule next_best_member [OF le])
  finally show "currentTitle (removeTitleAt tb index) = ?next" .
next
  assume v: "0 \<le> toInt32 index \<and> toInt32 index < int (length (titles tb))"
  then show "removeTitleAt tb index =
      (if currentTitle tb = Some (titles tb ! nat (toInt32 index))
       then setCurrentTitle
         ((releaseMouse tb)
          \<lparr>titles := take (nat (toInt32 index)) (titles tb) @
                      drop (Suc (nat (toInt32 index))) (titles tb),
             connected := connected tb - {titles tb ! nat (toInt32 index)}\<rparr>)
         (if nat (toInt32 index)
             < length (take (nat (toInt32 index)) (titles tb) @
                       drop (Suc (nat (toInt32 index))) (titles tb))
          then Some ((take (nat (toInt32 index)) (titles tb) @
                      drop (Suc (nat (toInt32 index))) (titles tb)) ! nat (toInt32 index))
          else if take (nat (toInt32 index)) (titles tb) @
                  drop (Suc (nat (toInt32 index))) (titles tb) = []
               then None
               else Some (last (take (nat (toInt32 index)) (titles tb) @
                                drop (Suc (nat (toInt32 index))) (titles tb))))
       else (releaseMouse tb)
          \<lparr>titles := take (nat (toInt32 index)) (titles tb) @
                      drop (Suc (nat (toInt32 index))) (titles tb),
             connected := connected tb - {titles tb ! nat (toInt32 index)}\<rparr>)
      \<lparr>dirty := True, updateRequested := True\<rparr>"
    using removeTitleAt_valid_state [OF _ _ refl, of index tb] by blast
qed

theorem removeTitleAt_selects_next_witness:
  "removeTitleAt barAB 2 = releaseMouse barAB \<and>
   removeTitleAt barAB (- 1) = releaseMouse barAB \<and>
   currentTitle barAB = Some titleA \<and>
   titles (removeTitleAt barAB 0) = [titleB] \<and>
   currentTitle (removeTitleAt barAB 0) = Some titleB \<and>
   currentTitle barPressedB = Some titleB \<and>
   dragData barPressedB = Some pressedB \<and>
   titles (removeTitleAt barPressedB 1) = [titleA] \<and>
   currentTitle (removeTitleAt barPressedB 1) = Some titleA \<and>
   dragData (removeTitleAt barPressedB 1) = None \<and>
   \<not> docListeners (removeTitleAt barPressedB 1) \<and>
   removeTitleAt barPressedB 0 =
     (releaseMouse barPressedB)\<lparr>titles := [titleB], connected := {titleB}, dirty := True,
        updateRequested := True\<rparr> \<and>
   currentTitle (addTitle newTabBar titleA) = Some titleA \<and>
   titles (removeTitleAt (addTitle newTabBar titleA) 0) = [] \<and>
   currentTitle (removeTitleAt (addTitle newTabBar titleA) 0) = None"
proof -
  have 1: "titles barAB = [titleA, titleB]" "currentTitle barAB = Some titleA"
    by (simp_all add: barAB_fields)
  have 2: "titles barPressedB = [titleA, titleB]" "currentTitle barPressedB = Some titleB"
    "dragData barPressedB = Some pressedB" "connected barPressedB = {titleA, titleB}"
    by (simp_all add: barPressedB_fields)
  have 3: "titles (addTitle newTabBar titleA) = [titleA]"
    "currentTitle (addTitle newTabBar titleA) = Some titleA"
    by (simp_all add: addTitle_A_fields)
  have ne: "titleA \<noteq> titleB"
    by (simp add: titleA_def titleB_def)
  then have c: "{titleA, titleB} - {titleA} = {titleB}"
    by auto
  have s: "titles (removeTitleAt barPressedB 1) = [titleA]"
    "currentTitle (removeTitleAt barPressedB 1) = Some titleA"
    "dragData (removeTitleAt barPressedB 1) = None"
    "\<not> docListeners (removeTitleAt barPressedB 1)"
    using removeTitleAt_selects_next [where index = 1 and tb = barPressedB]
    by (simp_all add: 2 toInt32_def Let_def releaseMouse_listeners coerce_member)
  from ne removeTitleAt_selects_next [where index = 2 and tb = barAB]
    removeTitleAt_selects_next [where index = "- 1" and tb = barAB]
    removeTitleAt_selects_next [where index = 0 and tb = barAB]
    removeTitleAt_selects_next [where index = 0 and tb = barPressedB]
    removeTitleAt_selects_next [where index = 0 and tb = "addTitle newTabBar titleA"]
  show ?thesis
    by (simp add: 1 2 3 s c toInt32_def Let_def coerce_member)
qed

subsection \<open>C6: assigning the current title\<close>

text \<open>
  Claim C6 says that assigning the already current title, or a title that is not in the
  collection, fires no \<open>currentChanged\<close> notification, and that a non-member is coerced
  to null. The coercion holds, and it is why the notification fires: the stored value
  changes from the old current title to null whenever the old one was not null.
\<close>

text \<open>
  Counterexample to C6 as stated: on [A, B] with A current, assigning C, which is not a
  member, emits \<open>currentChanged\<close> from A to null. The second half shows the state that
  \<open>clearTitles\<close> leaves (claim C3): A is current and not a member, and assigning A
  again emits \<open>currentChanged\<close> from A to null.
\<close>

theorem assign_current_notifies_counterexample:
  "titleC \<notin> set (titles barAB) \<and> currentTitle barAB = Some titleA \<and>
   signals (setCurrentTitle barAB (Some titleC))
     = signals barAB @ [CurrentChanged (Some titleA) None] \<and>
   titles (clearTitles (addTitle newTabBar titleA)) = [] \<and>
   currentTitle (clearTitles (addTitle newTabBar titleA)) = Some titleA \<and>
   signals (setCurrentTitle (clearTitles (addTitle newTabBar titleA)) (Some titleA))
     = signals (clearTitles (addTitle newTabBar titleA)) @ [CurrentChanged (Some titleA) None]"
proof -
  have 1: "titleC \<notin> set (titles barAB) \<and> currentTitle barAB = Some titleA"
    by (simp add: barAB_fields titleA_def titleB_def titleC_def)
  then have 2: "signals (setCurrentTitle barAB (Some titleC)) =
      signals barAB @ [CurrentChanged (Some titleA) None]"
    by (simp add: setCurrentTitle_signals coerce_nonmember)
  let ?s = "clearTitles (addTitle newTabBar titleA)"
  have 3: "titles ?s = [] \<and> currentTitle ?s = Some titleA"
    by (simp add: clearTitles_result) (simp add: addTitle_A_fields)
  then have 4: "signals (setCurrentTitle ?s (Some titleA))
      = signals ?s @ [CurrentChanged (Some titleA) None]"
    by (simp add: setCurrentTitle_signals coerce_nonmember)
  from 1 2 3 4 show ?thesis by simp
qed

text \<open>
  Claim C6 as amended. In every state whose current title is null or a member of the
  collection, assigning the current title again leaves the state as it is, so nothing is
  emitted. In every state, assigning a title that is not a member stores null, and emits
  \<open>currentChanged\<close>, from the old current title to null, exactly when the old current
  title was not null.
\<close>

theorem assign_current_notifications:
  "((currentTitle tb = None \<or> (\<exists>c. currentTitle tb = Some c \<and> c \<in> set (titles tb)))
      \<longrightarrow> setCurrentTitle tb (currentTitle tb) = tb) \<and>
   (t \<notin> set (titles tb) \<longrightarrow>
      currentTitle (setCurrentTitle tb (Some t)) = None \<and>
      signals (setCurrentTitle tb (Some t)) =
        (if currentTitle tb = None then signals tb
         else signals tb @ [CurrentChanged (currentTitle tb) None]))"
proof -
  have a: "setCurrentTitle tb (currentTitle tb) = tb"
    if "currentTitle tb = None \<or> (\<exists>c. currentTitle tb = Some c \<and> c \<in> set (titles tb))"
  proof -
    from that have "coerceCurrentTitle tb (currentTitle tb) = currentTitle tb"
      by (auto simp: coerce_member)
    then show ?thesis by (rule setCurrentTitle_same)
  qed
  have b: "currentTitle (setCurrentTitle tb (Some t)) = None \<and>
      signals (setCurrentTitle tb (Some t)) =
        (if currentTitle tb = None then signals tb
         else signals tb @ [CurrentChanged (currentTitle tb) None])"
    if "t \<notin> set (titles tb)"
    using that by (simp add: setCurrentTitle_signals coerce_nonmember)
  from a b show ?thesis by blast
qed

theorem assign_current_notifications_witness:
  "currentTitle barAB = Some titleA \<and> titleA \<in> set (titles barAB) \<and>
   setCurrentTitle barAB (Some titleA) = barAB \<and>
   titleC \<notin> set (titles barAB) \<and>
   currentTitle (setCurrentTitle barAB (Some titleC)) = None \<and>
   signals (setCurrentTitle barAB (Some titleC))
     = signals barAB @ [CurrentChanged (Some titleA) None] \<and>
   currentTitle newTabBar = None \<and> titleC \<notin> set (titles newTabBar) \<and>
   signals (setCurrentTitle newTabBar (Some titleC)) = signals newTabBar"
proof -
  have 1: "currentTitle barAB = Some titleA \<and> titleA \<in> set (titles barAB) \<and>
     titleC \<notin> set (titles barAB)"
    by (simp add: barAB_fields titleA_def titleB_def titleC_def)
  have 2: "titleC \<notin> set (titles newTabBar) \<and> currentTitle newTabBar = None"
    by (simp add: newTabBar_def)
  from 1 2 assign_current_notifications [where tb = barAB and t = titleC]
    assign_current_notifications [where tb = newTabBar and t = titleC]
  show ?thesis by simp
qed

subsection \<open>C7: the current title on insertion\<close>

text \<open>
  Claim C7 says that the first title inserted into an empty bar becomes current and that
  no later insertion changes the current title. The code tests \<open>!this.currentTitle\<close>,
  not the count: a new title becomes current whenever the current title is null.
\<close>

text \<open>
  Counterexample to C7 as stated: add A to a new bar and assign null to \<open>currentTitle\<close>;
  the bar holds [A] and has no current title, and inserting B, a subsequent title, makes
  B current. The second half is the state that \<open>clearTitles\<close> leaves (claim C3): the
  bar is empty, A is still current, and the first title inserted, B, does not become
  current.
\<close>

theorem insertTitle_current_counterexample:
  "titles (setCurrentTitle (addTitle newTabBar titleA) None) = [titleA] \<and>
   currentTitle (setCurrentTitle (addTitle newTabBar titleA) None) = None \<and>
   currentTitle (insertTitle (setCurrentTitle (addTitle newTabBar titleA) None) 1 titleB)
     = Some titleB \<and>
   titles (clearTitles (addTitle newTabBar titleA)) = [] \<and>
   currentTitle (insertTitle (clearTitles (addTitle newTabBar titleA)) 0 titleB) = Some titleA"
proof -
  let ?s = "setCurrentTitle (addTitle newTabBar titleA) None"
  have s: "titles ?s = [titleA]" "currentTitle ?s = None"
    by (simp_all add: setCurrentNone_fields addTitle_A_fields)
  have ne: "titleB \<noteq> titleA"
    by (simp add: titleA_def titleB_def)
  have "titles (addTitle newTabBar titleA) = [titleA]"
    by (simp add: addTitle_A_fields)
  with ne have "titleB \<notin> set (titles ?s)"
    by simp
  with s have 1: "currentTitle (insertTitle ?s 1 titleB) = Some titleB"
    by (simp add: currentTitle_after_insert)
  let ?e = "clearTitles (addTitle newTabBar titleA)"
  have e: "titles ?e = []" "currentTitle ?e = Some titleA"
    by (simp_all add: clearTitles_result) (simp add: addTitle_A_fields)
  then have 2: "currentTitle (insertTitle ?e 0 titleB) = Some titleA"
    by (simp add: currentTitle_after_insert)
  from s 1 e 2 show ?thesis by simp
qed

text \<open>
  Claim C7 as amended. Inserting a title that is not a member while the current title is
  null makes it current; so the first title inserted into a new tab bar becomes current.
  Inserting a title while the current title is a member of the collection, or inserting
  a title that is a member already, never changes the current title.
\<close>

theorem insertTitle_current:
  "(currentTitle tb = None \<and> t \<notin> set (titles tb) \<longrightarrow>
      currentTitle (insertTitle tb index t) = Some t) \<and>
   ((\<exists>c. currentTitle tb = Some c \<and> c \<in> set (titles tb)) \<or> t \<in> set (titles tb) \<longrightarrow>
      currentTitle (insertTitle tb index t) = currentTitle tb) \<and>
   currentTitle (insertTitle newTabBar index t) = Some t"
proof -
  have "currentTitle newTabBar = None" "titles newTabBar = []"
    by (simp_all add: newTabBar_def)
  then have "currentTitle (insertTitle newTabBar index t) = Some t"
    by (simp add: currentTitle_after_insert)
  then show ?thesis
    by (auto simp: currentTitle_after_insert)
qed

theorem insertTitle_current_witness:
  "currentTitle (setCurrentTitle (addTitle newTabBar titleA) None) = None \<and>
   titleB \<notin> set (titles (setCurrentTitle (addTitle newTabBar titleA) None)) \<and>
   currentTitle (insertTitle (setCurrentTitle (addTitle newTabBar titleA) None) 1 titleB)
     = Some titleB \<and>
   currentTitle barAB = Some titleA \<and> titleA \<in> set (titles barAB) \<and>
   currentTitle (insertTitle barAB 0 titleC) = Some titleA \<and>
   currentTitle (insertTitle barAB 0 titleB) = Some titleA \<and>
   currentTitle (insertTitle newTabBar 0 titleA) = Some titleA"
proof -
  let ?s = "setCurrentTitle (addTitle newTabBar titleA) None"
  have s: "titles ?s = [titleA]" "currentTitle ?s = None"
    by (simp_all add: setCurrentNone_fields addTitle_A_fields)
  have ne: "titleB \<noteq> titleA"
    by (simp add: titleA_def titleB_def)
  have b: "currentTitle barAB = Some titleA" "titles barAB = [titleA, titleB]"
    by (simp_all add: barAB_fields)
  from ne insertTitle_current [where tb = ?s and index = 1 and t = titleB]
    insertTitle_current [where tb = barAB and index = 0 and t = titleC]
    insertTitle_current [where tb = barAB and index = 0 and t = titleB]
    insertTitle_current [where tb = newTabBar and index = 0 and t = titleA]
  show ?thesis
    by (simp add: s b addTitle_A_fields)
qed

subsection \<open>C8: a click on a tab\<close>

text \<open>
  Claim C8: a left-button click whose coordinates hit a tab stops the propagation of the
  event; where the tab at the hit index i has a title, the handler returns, and it emits
  \<open>tabCloseRequested\<close> with that title if the title is closable and the target of the
  click is inside the close icon of the tab, and nothing otherwise.
\<close>

theorem click_close_requested:
  "etype ev = Click \<and> button ev = 0 \<and> hitTestTabs tb (clientX ev) (clientY ev) = i \<and> 0 \<le> i
   \<longrightarrow>
     propagationStopped (fst (state_of (handleEvent closable tb ev))) \<and>
     (i < int (length (titles tb)) \<longrightarrow>
        handleEvent closable tb ev =
          Done (stopEvent ev,
                if closable (titles tb ! nat i) \<and> target ev \<in> set (closeIcon (tabs tb ! nat i))
                then tb\<lparr>signals := signals tb @ [TabCloseRequested (titles tb ! nat i)]\<rparr>
                else tb))"
proof (intro impI)
  assume h: "etype ev = Click \<and> button ev = 0 \<and>
    hitTestTabs tb (clientX ev) (clientY ev) = i \<and> 0 \<le> i"
  then have hit: "button ev = 0" "0 \<le> hitTestTabs tb (clientX ev) (clientY ev)"
    by simp_all
  from h have he: "handleEvent closable tb ev = evtClick closable tb ev"
    by (simp add: handleEvent_def)
  have ev: "evtClick closable tb ev =
      (case titleAt tb i of
         None \<Rightarrow> Threw TypeError (stopEvent ev, tb)
       | Some t \<Rightarrow>
           if closable t \<and> target ev \<in> set (closeIconNode tb i)
           then Done (stopEvent ev, tb\<lparr>signals := signals tb @ [TabCloseRequested t]\<rparr>)
           else Done (stopEvent ev, tb))"
    using evtClick_hit [OF hit, of closable] h by (simp add: Let_def)
  have stopped: "propagationStopped (fst (state_of (handleEvent closable tb ev)))"
    unfolding he ev by (simp add: stopEvent_def split: option.splits)
  have titled: "handleEvent closable tb ev =
      Done (stopEvent ev,
            if closable (titles tb ! nat i) \<and> target ev \<in> set (closeIcon (tabs tb ! nat i))
            then tb\<lparr>signals := signals tb @ [TabCloseRequested (titles tb ! nat i)]\<rparr>
            else tb)" if "i < int (length (titles tb))"
  proof -
    from that h have "titleAt tb i = Some (titles tb ! nat i)"
      by (simp add: titleAt_def)
    then show ?thesis
      unfolding he ev by (simp add: closeIconNode_def)
  qed
  from stopped titled
  show "propagationStopped (fst (state_of (handleEvent closable tb ev))) \<and>
     (i < int (length (titles tb)) \<longrightarrow>
        handleEvent closable tb ev =
          Done (stopEvent ev,
                if closable (titles tb ! nat i) \<and> target ev \<in> set (closeIcon (tabs tb ! nat i))
                then tb\<lparr>signals := signals tb @ [TabCloseRequested (titles tb ! nat i)]\<rparr>
                else tb))"
    by blast
qed

theorem click_close_requested_witness:
  "handleEvent (\<lambda>t. t = titleB) barAB (mouseEvent Click 190 10 23) =
     Done (stopEvent (mouseEvent Click 190 10 23),
           barAB\<lparr>signals := signals barAB @ [TabCloseRequested titleB]\<rparr>) \<and>
   handleEvent (\<lambda>t. t = titleB) barAB (mouseEvent Click 90 10 13) =
     Done (stopEvent (mouseEvent Click 90 10 13), barAB) \<and>
   handleEvent (\<lambda>t. t = titleB) barAB (mouseEvent Click 150 10 21) =
     Done (stopEvent (mouseEvent Click 150 10 21), barAB) \<and>
   propagationStopped (fst (state_of (handleEvent (\<lambda>t. t = titleB) barAB (mouseEvent Click 90 10 13))))"
proof -
  have ts: "titles barAB = [titleA, titleB]" "tabs barAB = [tabNodeA, tabNodeB]"
    by (simp_all add: barAB_fields)
  have ev: "etype (mouseEvent Click x y n) = Click" "button (mouseEvent Click x y n) = 0"
    "clientX (mouseEvent Click x y n) = x" "clientY (mouseEvent Click x y n) = y"
    "target (mouseEvent Click x y n) = n" for x y n
    by (simp_all add: mouseEvent_def)
  have ne: "titleA \<noteq> titleB"
    by (simp add: titleA_def titleB_def)
  have ic: "closeIcon tabNodeA = [13]" "closeIcon tabNodeB = [23]"
    by (simp_all add: tabNodeA_def tabNodeB_def)
  from ne
    click_close_requested [where ev = "mouseEvent Click 190 10 23" and tb = barAB and i = 1
      and closable = "\<lambda>t. t = titleB"]
    click_close_requested [where ev = "mouseEvent Click 90 10 13" and tb = barAB and i = 0
      and closable = "\<lambda>t. t = titleB"]
    click_close_requested [where ev = "mouseEvent Click 150 10 21" and tb = barAB and i = 1
      and closable = "\<lambda>t. t = titleB"]
  show ?thesis
    by (simp add: ev hitTestTabs_barAB ts ic stopEvent_def)
qed

subsection \<open>C9: releasing the mouse is idempotent\<close>

text \<open>
  Claim C9: \<open>releaseMouse()\<close> changes nothing when no drag session is open, and calling
  it twice leaves the bar as calling it once does. After the first call the session
  reference is null, and the document listeners of an open session are removed. They
  would stay only in a state that has listeners and no session, and the bar reaches no
  such state (the lemmas on \<open>sessionOwnsListeners\<close> above: a new bar has the
  property, and the methods and the event handlers preserve it).
\<close>

theorem releaseMouse_idempotent:
  "(dragData tb = None \<longrightarrow> releaseMouse tb = tb) \<and>
   releaseMouse (releaseMouse tb) = releaseMouse tb \<and>
   dragData (releaseMouse tb) = None \<and>
   docListeners (releaseMouse tb) = (docListeners tb \<and> dragData tb = None)"
proof -
  have idle: "dragData tb = None \<longrightarrow> releaseMouse tb = tb"
    by (simp add: releaseMouse_idle)
  have cleared: "dragData (releaseMouse tb) = None"
    by simp
  then have twice: "releaseMouse (releaseMouse tb) = releaseMouse tb"
    by (rule releaseMouse_idle)
  from idle twice cleared releaseMouse_listeners [of tb] show ?thesis
    by blast
qed

theorem releaseMouse_idempotent_witness:
  "dragData newTabBar = None \<and> releaseMouse newTabBar = newTabBar \<and>
   dragData barPressedB = Some pressedB \<and> docListeners barPressedB \<and>
   dragData (releaseMouse barPressedB) = None \<and>
   \<not> docListeners (releaseMouse barPressedB) \<and>
   releaseMouse (releaseMouse barPressedB) = releaseMouse barPressedB"
  using releaseMouse_idempotent [of newTabBar] releaseMouse_idempotent [of barPressedB]
  by (simp add: newTabBar_def barPressedB_fields)

subsection \<open>C10: removing a title that is not current\<close>

text \<open>
  Claim C10 says that removing a title that is not the current one leaves the current
  title unchanged and affects only the collection, the subscription of the removed title
  and the dirty flag. The current title is unchanged, but the call also releases the
  mouse and requests an update.
\<close>

text \<open>
  Counterexample to C10 as stated: on the pressed bar, where B is current,
  \<open>removeTitleAt(0)\<close> removes A, clears the drag data and removes the document
  listeners; on [A, B] with A current and no update pending, \<open>removeTitleAt(1)\<close> leaves
  an update request pending.
\<close>

theorem removeTitleAt_frame_counterexample:
  "titles barPressedB ! 0 = titleA \<and> currentTitle barPressedB = Some titleB \<and>
   dragData barPressedB = Some pressedB \<and> docListeners barPressedB \<and>
   dragData (removeTitleAt barPressedB 0) = None \<and>
   \<not> docListeners (removeTitleAt barPressedB 0) \<and>
   titles barAB ! 1 = titleB \<and> currentTitle barAB = Some titleA \<and>
   \<not> updateRequested barAB \<and> updateRequested (removeTitleAt barAB 1)"
  by (simp add: barPressedB_fields barAB_fields)
     (simp add: method_defs titleA_def titleB_def)

text \<open>
  Claim C10 as amended. Let i be \<open>index | 0\<close>. If i is in range and the title at i is
  not the current title, the call leaves the current title unchanged, and the state
  after it is the state that \<open>releaseMouse\<close> leaves with the title at i removed from the
  collection and from the connected titles, the dirty flag set and an update requested:
  nothing else is affected.
\<close>

theorem removeTitleAt_frame:
  "(let i = toInt32 index; t = titles tb ! nat i
    in 0 \<le> i \<and> i < int (length (titles tb)) \<and> currentTitle tb \<noteq> Some t \<longrightarrow>
       removeTitleAt tb index =
         (releaseMouse tb)\<lparr>titles := take (nat i) (titles tb) @ drop (Suc (nat i)) (titles tb),
                             connected := connected tb - {t},
                             dirty := True,
                             updateRequested := True\<rparr> \<and>
       currentTitle (removeTitleAt tb index) = currentTitle tb)"
  unfolding Let_def
proof (intro impI)
  let ?i = "toInt32 index"
  assume h: "0 \<le> ?i \<and> ?i < int (length (titles tb)) \<and> currentTitle tb \<noteq> Some (titles tb ! nat ?i)"
  then have eq: "removeTitleAt tb index =
      (releaseMouse tb)\<lparr>titles := take (nat ?i) (titles tb) @ drop (Suc (nat ?i)) (titles tb),
                          connected := connected tb - {titles tb ! nat ?i},
                          dirty := True,
                          updateRequested := True\<rparr>"
    by (simp add: removeTitleAt_valid Let_def update_def)
  then show "removeTitleAt tb index =
      (releaseMouse tb)\<lparr>titles := take (nat ?i) (titles tb) @ drop (Suc (nat ?i)) (titles tb),
                          connected := connected tb - {titles tb ! nat ?i},
                          dirty := True,
                          updateRequested := True\<rparr> \<and>
      currentTitle (removeTitleAt tb index) = currentTitle tb"
    by simp
qed

theorem removeTitleAt_frame_witness:
  "toInt32 1 = 1 \<and> currentTitle barAB = Some titleA \<and> titles barAB ! 1 = titleB \<and>
   removeTitleAt barAB 1 =
     barAB\<lparr>titles := [titleA], connected := {titleA}, dirty := True, updateRequested := True\<rparr> \<and>
   currentTitle (removeTitleAt barAB 1) = Some titleA"
proof -
  have 1: "titles barAB = [titleA, titleB]" "currentTitle barAB = Some titleA"
    "connected barAB = {titleA, titleB}" "releaseMouse barAB = barAB"
    by (simp_all add: barAB_fields releaseMouse_def)
  have ne: "titleA \<noteq> titleB"
    by (simp add: titleA_def titleB_def)
  have c: "{titleA, titleB} - {titleB} = {titleA}"
    using ne by auto
  from ne removeTitleAt_frame [where index = 1 and tb = barAB] show ?thesis
    by (simp add: 1 toInt32_def c Let_def)
qed

end
